theory Spec2Isabelle
  imports Main
begin

section \<open>Time values of the calendar library\<close>

text \<open>
  \<^verbatim>\<open>src/result-mapper.js\<close> computes with objects of the third-party calendar library
  (\<^verbatim>\<open>moment\<close>), always in UTC mode. Such an object wraps a number of milliseconds since
  the epoch; the operations the source calls are modelled on that number, with exact
  (unbounded) integer arithmetic, so neither the rounding of JavaScript's doubles beyond
  \<open>2^53\<close> nor the library's range of valid dates is modelled:
  \<^item> \<^verbatim>\<open>moment.unix(n).utc()\<close> is the instant \<open>n * 1000\<close> ms, \<^verbatim>\<open>m.unix()\<close> is
    \<open>floor (ms / 1000)\<close>;
  \<^item> \<^verbatim>\<open>m.add(k, 'days')\<close> and \<^verbatim>\<open>m.subtract(k, 'days')\<close> move by \<open>k * 86400000\<close> ms
    (a UTC day has no daylight-saving shift);
  \<^item> \<^verbatim>\<open>m.startOf('day')\<close> floors to a multiple of 86400000 ms (00:00:00.000 UTC);
  \<^item> \<^verbatim>\<open>a.isAfter(b)\<close>, \<^verbatim>\<open>a.isSame(b)\<close> compare the millisecond values;
  \<^item> \<^verbatim>\<open>a.diff(b, 'seconds')\<close> is \<open>(a - b) / 1000\<close> rounded towards zero.

  The library mutates in place; the source clones before every \<^verbatim>\<open>add\<close>, \<^verbatim>\<open>subtract\<close>
  and \<^verbatim>\<open>startOf\<close> except for the loop variable \<^verbatim>\<open>startOfNextFullDay\<close>, which is
  reassigned to the result, so no object is shared and values suffice.
\<close>

datatype moment = Moment (valueOf: int)

definition MS_PER_SECOND :: int where
  "MS_PER_SECOND = 1000"

definition MS_PER_DAY :: int where
  "MS_PER_DAY = 86400000"

definition moment_unix :: "int \<Rightarrow> moment" where
  "moment_unix seconds = Moment (seconds * MS_PER_SECOND)"

definition unix :: "moment \<Rightarrow> int" where
  "unix m = valueOf m div MS_PER_SECOND"

definition add_days :: "moment \<Rightarrow> int \<Rightarrow> moment" where
  "add_days m k = Moment (valueOf m + k * MS_PER_DAY)"

definition subtract_days :: "moment \<Rightarrow> int \<Rightarrow> moment" where
  "subtract_days m k = Moment (valueOf m - k * MS_PER_DAY)"

definition startOf_day :: "moment \<Rightarrow> moment" where
  "startOf_day m = Moment (valueOf m - valueOf m mod MS_PER_DAY)"

definition isAfter :: "moment \<Rightarrow> moment \<Rightarrow> bool" where
  "isAfter a b = (valueOf b < valueOf a)"

definition isSame :: "moment \<Rightarrow> moment \<Rightarrow> bool" where
  "isSame a b = (valueOf a = valueOf b)"

definition absFloor :: "int \<Rightarrow> int \<Rightarrow> int" where
  \<comment> \<open>the quotient rounded towards zero\<close>
  "absFloor x d = (if x < 0 then - ((- x) div d) else x div d)"

definition diff_seconds :: "moment \<Rightarrow> moment \<Rightarrow> int" where
  "diff_seconds a b = absFloor (valueOf a - valueOf b) MS_PER_SECOND"

section \<open>Data model\<close>

text \<open>
  A stream period as the mapper reads it: \<^verbatim>\<open>stoppedAtTimestamp\<close> is a number or
  \<^verbatim>\<open>null\<close> (\<open>None\<close>). Timestamps are whole seconds since the epoch and the flow rate is a
  signed integer, so JavaScript's \<^verbatim>\<open>Number(...)\<close> conversions are the identity.
\<close>

record streamPeriod =
  startedAtTimestamp :: int
  stoppedAtTimestamp :: "int option"
  flowRate :: int

record dailyAmount =
  startTime :: int
  endTime :: int
  quantityInToken :: int

definition truthy :: "int option \<Rightarrow> bool" where
  \<comment> \<open>JavaScript's \<^verbatim>\<open>!!v\<close>: \<^verbatim>\<open>null\<close> and the number 0 are falsy\<close>
  "truthy v = (case v of None \<Rightarrow> False | Some n \<Rightarrow> n \<noteq> 0)"

definition toNumber :: "int option \<Rightarrow> int" where
  \<comment> \<open>the coercion \<^verbatim>\<open>Math.min\<close> applies to its arguments: \<^verbatim>\<open>null\<close> becomes 0\<close>
  "toNumber v = (case v of None \<Rightarrow> 0 | Some n \<Rightarrow> n)"

section \<open>The daily-amount decomposition\<close>

definition createDailyAmount :: "moment \<Rightarrow> moment \<Rightarrow> int \<Rightarrow> dailyAmount" where
  "createDailyAmount startMoment endMoment quantity =
     \<lparr>startTime = unix startMoment, endTime = unix endMoment, quantityInToken = quantity\<rparr>"

definition getFlowedTokenQuantityBetween :: "moment \<Rightarrow> moment \<Rightarrow> int \<Rightarrow> int" where
  "getFlowedTokenQuantityBetween startMoment endMoment rate =
     diff_seconds endMoment startMoment * rate"

definition calculateFirstDailyAmount :: "moment \<Rightarrow> moment \<Rightarrow> bool \<Rightarrow> int \<Rightarrow> dailyAmount" where
  "calculateFirstDailyAmount startMoment endMoment spansDays rate =
     (let firstEndTime = (if spansDays then startOf_day (add_days startMoment 1) else endMoment);
          firstTokenQuantity = getFlowedTokenQuantityBetween startMoment firstEndTime rate
      in createDailyAmount startMoment firstEndTime firstTokenQuantity)"

definition calculateLastDailyAmount :: "moment \<Rightarrow> moment \<Rightarrow> int \<Rightarrow> dailyAmount" where
  "calculateLastDailyAmount lastStartTime endMoment rate =
     createDailyAmount lastStartTime endMoment
       (getFlowedTokenQuantityBetween lastStartTime endMoment rate)"

text \<open>
  The \<^verbatim>\<open>while\<close> loop of \<^verbatim>\<open>calculateDailyAmountsForFullDaysBetween\<close>: its state is the
  candidate boundary \<^verbatim>\<open>startOfNextFullDay\<close> and the array \<^verbatim>\<open>fullDayAmounts\<close>, to which
  every iteration pushes one amount.
\<close>

function fullDaysLoop :: "moment \<Rightarrow> moment \<Rightarrow> int \<Rightarrow> dailyAmount list \<Rightarrow> dailyAmount list" where
  "fullDaysLoop startOfNextFullDay endMoment rate fullDayAmounts =
     (if isAfter endMoment startOfNextFullDay \<or> isSame endMoment startOfNextFullDay
      then fullDaysLoop (startOf_day (add_days startOfNextFullDay 1)) endMoment rate
             (fullDayAmounts @
                [createDailyAmount
                   (startOf_day (subtract_days startOfNextFullDay 1))
                   startOfNextFullDay
                   (getFlowedTokenQuantityBetween
                      (startOf_day (subtract_days startOfNextFullDay 1))
                      startOfNextFullDay rate)])
      else fullDayAmounts)"
  by pat_completeness auto
termination
proof (relation "measure (\<lambda>(n, e, r, acc). nat (valueOf e - valueOf n + 1))")
  show "wf (measure (\<lambda>(n, e, r, acc). nat (valueOf e - valueOf n + 1)))"
    by simp
next
  fix startOfNextFullDay endMoment :: moment and rate :: int and fullDayAmounts :: "dailyAmount list"
  let ?v = "valueOf startOfNextFullDay"
  assume "isAfter endMoment startOfNextFullDay \<or> isSame endMoment startOfNextFullDay"
  then have le: "?v \<le> valueOf endMoment"
    by (auto simp: isAfter_def isSame_def)
  have "(?v + 86400000) mod 86400000 < 86400000"
    by simp
  then have "?v < (?v + 86400000) - (?v + 86400000) mod 86400000"
    by linarith
  with le show "((startOf_day (add_days startOfNextFullDay 1), endMoment, rate,
        fullDayAmounts @
          [createDailyAmount (startOf_day (subtract_days startOfNextFullDay 1)) startOfNextFullDay
             (getFlowedTokenQuantityBetween (startOf_day (subtract_days startOfNextFullDay 1))
                startOfNextFullDay rate)]),
       (startOfNextFullDay, endMoment, rate, fullDayAmounts))
      \<in> measure (\<lambda>(n, e, r, acc). nat (valueOf e - valueOf n + 1))"
    by (simp add: startOf_day_def add_days_def MS_PER_DAY_def)
qed

declare fullDaysLoop.simps [simp del]

definition calculateDailyAmountsForFullDaysBetween ::
  "moment \<Rightarrow> moment \<Rightarrow> int \<Rightarrow> dailyAmount list \<times> moment" where
  "calculateDailyAmountsForFullDaysBetween startMoment endMoment rate =
     (let startOfNextFullDay = startOf_day (add_days startMoment 1);
          fullDayAmounts = fullDaysLoop startOfNextFullDay endMoment rate []
      in (fullDayAmounts,
          if length fullDayAmounts > 0 then moment_unix (endTime (last fullDayAmounts))
          else startMoment))"

definition calculateDailyAmounts :: "moment \<Rightarrow> moment \<Rightarrow> int \<Rightarrow> dailyAmount list" where
  "calculateDailyAmounts startMoment endMoment rate =
     (let nextDayStart = startOf_day (add_days startMoment 1);
          spansDays = isAfter endMoment nextDayStart;
          firstDailyAmount = calculateFirstDailyAmount startMoment endMoment spansDays rate
      in if \<not> spansDays then [firstDailyAmount]
         else
           (let (fullDayAmounts, nextStartTime) =
                  calculateDailyAmountsForFullDaysBetween
                    (moment_unix (endTime firstDailyAmount)) endMoment rate
            in if isSame nextStartTime endMoment then firstDailyAmount # fullDayAmounts
               else firstDailyAmount # fullDayAmounts @
                      [calculateLastDailyAmount nextStartTime endMoment rate]))"

section \<open>Clipping a stream period to the reporting window\<close>

definition isStreamTerminated :: "streamPeriod \<Rightarrow> bool" where
  "isStreamTerminated p = truthy (stoppedAtTimestamp p)"

definition dailyAmountStartTimestamp :: "streamPeriod \<Rightarrow> int \<Rightarrow> int" where
  "dailyAmountStartTimestamp p startTimestamp = max (startedAtTimestamp p) startTimestamp"

definition dailyAmountEndTimestamp :: "streamPeriod \<Rightarrow> int \<Rightarrow> int" where
  "dailyAmountEndTimestamp p endTimestamp =
     (if isStreamTerminated p then min endTimestamp (toNumber (stoppedAtTimestamp p))
      else endTimestamp)"

definition getDailyAmounts :: "streamPeriod \<Rightarrow> int \<Rightarrow> int \<Rightarrow> dailyAmount list" where
  "getDailyAmounts p startTimestamp endTimestamp =
     calculateDailyAmounts
       (moment_unix (dailyAmountStartTimestamp p startTimestamp))
       (moment_unix (dailyAmountEndTimestamp p endTimestamp))
       (flowRate p)"

section \<open>The loop with an iteration budget\<close>

text \<open>
  The same loop with a budget: \<open>fuel\<close> is the number of times the loop body may still
  run. When the condition holds and no budget is left the result is \<open>None\<close>; otherwise the
  result is that of the source. The two callers pass the budget through unchanged.
\<close>

fun fullDaysLoop_fuel ::
  "nat \<Rightarrow> moment \<Rightarrow> moment \<Rightarrow> int \<Rightarrow> dailyAmount list \<Rightarrow> dailyAmount list option" where
  "fullDaysLoop_fuel 0 startOfNextFullDay endMoment rate fullDayAmounts =
     (if isAfter endMoment startOfNextFullDay \<or> isSame endMoment startOfNextFullDay
      then None
      else Some fullDayAmounts)"
| "fullDaysLoop_fuel (Suc fuel) startOfNextFullDay endMoment rate fullDayAmounts =
     (if isAfter endMoment startOfNextFullDay \<or> isSame endMoment startOfNextFullDay
      then fullDaysLoop_fuel fuel (startOf_day (add_days startOfNextFullDay 1)) endMoment rate
             (fullDayAmounts @
                [createDailyAmount
                   (startOf_day (subtract_days startOfNextFullDay 1))
                   startOfNextFullDay
                   (getFlowedTokenQuantityBetween
                      (startOf_day (subtract_days startOfNextFullDay 1))
                      startOfNextFullDay rate)])
      else Some fullDayAmounts)"

definition calculateDailyAmountsForFullDaysBetween_fuel ::
  "nat \<Rightarrow> moment \<Rightarrow> moment \<Rightarrow> int \<Rightarrow> (dailyAmount list \<times> moment) option" where
  "calculateDailyAmountsForFullDaysBetween_fuel fuel startMoment endMoment rate =
     (case fullDaysLoop_fuel fuel (startOf_day (add_days startMoment 1)) endMoment rate [] of
        None \<Rightarrow> None
      | Some fullDayAmounts \<Rightarrow>
          Some (fullDayAmounts,
                if length fullDayAmounts > 0 then moment_unix (endTime (last fullDayAmounts))
                else startMoment))"

definition calculateDailyAmounts_fuel ::
  "nat \<Rightarrow> moment \<Rightarrow> moment \<Rightarrow> int \<Rightarrow> dailyAmount list option" where
  "calculateDailyAmounts_fuel fuel startMoment endMoment rate =
     (let nextDayStart = startOf_day (add_days startMoment 1);
          spansDays = isAfter endMoment nextDayStart;
          firstDailyAmount = calculateFirstDailyAmount startMoment endMoment spansDays rate
      in if \<not> spansDays then Some [firstDailyAmount]
         else
           (case calculateDailyAmountsForFullDaysBetween_fuel fuel
                   (moment_unix (endTime firstDailyAmount)) endMoment rate of
              None \<Rightarrow> None
            | Some (fullDayAmounts, nextStartTime) \<Rightarrow>
                if isSame nextStartTime endMoment then Some (firstDailyAmount # fullDayAmounts)
                else Some (firstDailyAmount # fullDayAmounts @
                       [calculateLastDailyAmount nextStartTime endMoment rate])))"

section \<open>A closed form of the decomposition\<close>

text \<open>
  On whole seconds: \<open>dayBoundaryAfter s\<close> is the first midnight (UTC) strictly after
  \<open>s\<close>; \<open>fullDaysFrom n d r\<close> lists \<open>n\<close> consecutive one-day amounts from \<open>d\<close>;
  \<open>decompose_closed\<close> puts the three phases together. \<open>chain a xs b\<close> says that \<open>xs\<close>
  leads from \<open>a\<close> to \<open>b\<close> through amounts of positive length, each starting where the
  previous one ends. These are proof devices: the theorems below are stated on the
  functions of the source.
\<close>

definition dayBoundaryAfter :: "int \<Rightarrow> int" where
  "dayBoundaryAfter s = s - s mod 86400 + 86400"

fun fullDaysFrom :: "nat \<Rightarrow> int \<Rightarrow> int \<Rightarrow> dailyAmount list" where
  "fullDaysFrom 0 d r = []"
| "fullDaysFrom (Suc n) d r =
     \<lparr>startTime = d, endTime = d + 86400, quantityInToken = 86400 * r\<rparr> # fullDaysFrom n (d + 86400) r"

definition decompose_closed :: "int \<Rightarrow> int \<Rightarrow> int \<Rightarrow> dailyAmount list" where
  "decompose_closed s e r =
     (let b = dayBoundaryAfter s; n = nat ((e - b) div 86400); c = b + 86400 * int n
      in if e \<le> b then [\<lparr>startTime = s, endTime = e, quantityInToken = (e - s) * r\<rparr>]
         else \<lparr>startTime = s, endTime = b, quantityInToken = (b - s) * r\<rparr> # fullDaysFrom n b r @
              (if c = e then [] else [\<lparr>startTime = c, endTime = e, quantityInToken = (e - c) * r\<rparr>]))"

fun chain :: "int \<Rightarrow> dailyAmount list \<Rightarrow> int \<Rightarrow> bool" where
  "chain a [] b = (a = b)"
| "chain a (x # xs) b = (startTime x = a \<and> a < endTime x \<and> chain (endTime x) xs b)"

section \<open>The calendar operations on whole seconds\<close>

lemma unix_moment_unix [simp]: "unix (moment_unix t) = t"
  by (simp add: unix_def moment_unix_def MS_PER_SECOND_def)

lemma isAfter_moment_unix [simp]: "isAfter (moment_unix a) (moment_unix b) = (b < a)"
  by (simp add: isAfter_def moment_unix_def MS_PER_SECOND_def)

lemma isSame_moment_unix [simp]: "isSame (moment_unix a) (moment_unix b) = (a = b)"
  by (simp add: isSame_def moment_unix_def MS_PER_SECOND_def)

lemma diff_seconds_moment_unix [simp]: "diff_seconds (moment_unix a) (moment_unix b) = a - b"
proof -
  have "(a * 1000 - b * 1000) = (a - b) * 1000" by simp
  moreover have "(b * 1000 - a * 1000) = (b - a) * 1000" by simp
  ultimately show ?thesis
    by (simp add: diff_seconds_def absFloor_def moment_unix_def MS_PER_SECOND_def del: mult_numeral_left_semiring_numeral)
qed

lemma startOf_day_add_moment_unix [simp]:
  "startOf_day (add_days (moment_unix s) 1) = moment_unix (dayBoundaryAfter s)"
proof -
  have "(s * 1000 + 86400000) mod 86400000 = (s * 1000) mod (86400 * 1000)"
    by simp
  also have "\<dots> = (s mod 86400) * 1000"
    by (rule mult_mod_left [symmetric]) 
  finally show ?thesis
    by (simp add: startOf_day_def add_days_def moment_unix_def dayBoundaryAfter_def
        MS_PER_DAY_def MS_PER_SECOND_def algebra_simps)
qed

lemma startOf_day_subtract_moment_unix:
  assumes "d mod 86400 = 0"
  shows "startOf_day (subtract_days (moment_unix d) 1) = moment_unix (d - 86400)"
proof -
  have "(d * 1000 - 86400000) mod 86400000 = ((d - 86400) * 1000) mod (86400 * 1000)"
    by (simp add: algebra_simps)
  also have "\<dots> = ((d - 86400) mod 86400) * 1000"
    by (rule mult_mod_left [symmetric])
  also have "\<dots> = 0"
    using assms by simp
  finally show ?thesis
    by (simp add: startOf_day_def subtract_days_def moment_unix_def
        MS_PER_DAY_def MS_PER_SECOND_def algebra_simps)
qed

lemma dayBoundaryAfter_aligned [simp]: "dayBoundaryAfter s mod 86400 = 0"
  by (simp add: dayBoundaryAfter_def)

lemma dayBoundaryAfter_gt: "s < dayBoundaryAfter s"
proof -
  have "s mod 86400 < 86400" by simp
  then show ?thesis unfolding dayBoundaryAfter_def by linarith
qed

lemma dayBoundaryAfter_of_aligned: "d mod 86400 = 0 \<Longrightarrow> dayBoundaryAfter d = d + 86400"
  by (simp add: dayBoundaryAfter_def)

lemma fullDaysLoop_closed:
  "d mod 86400 = 0 \<Longrightarrow> n = nat ((e - d) div 86400 + 1) \<Longrightarrow>
   fullDaysLoop (moment_unix d) (moment_unix e) r acc = acc @ fullDaysFrom n (d - 86400) r"
proof (induction n arbitrary: d acc)
  case 0
  then have "(e - d) div 86400 < 0" by linarith
  then have "e < d" by (simp add: pos_imp_zdiv_neg_iff)
  then show ?case
    by (subst fullDaysLoop.simps) simp
next
  case (Suc n)
  then have "0 \<le> (e - d) div 86400" by linarith
  then have le: "d \<le> e" by (simp add: pos_imp_zdiv_nonneg_iff)
  have al: "(d + 86400) mod 86400 = 0" using Suc.prems(1) by simp
  have "(e - d) div 86400 = ((e - (d + 86400)) + 86400) div 86400"
    by simp
  also have "\<dots> = (e - (d + 86400)) div 86400 + 1"
    by (rule div_add_self2) simp
  finally have "(e - (d + 86400)) div 86400 = (e - d) div 86400 - 1"
    by simp
  with Suc.prems(2) have n: "n = nat ((e - (d + 86400)) div 86400 + 1)"
    by linarith
  have step: "fullDaysLoop (moment_unix (d + 86400)) (moment_unix e) r
        (acc @ [\<lparr>startTime = d - 86400, endTime = d, quantityInToken = 86400 * r\<rparr>])
      = (acc @ [\<lparr>startTime = d - 86400, endTime = d, quantityInToken = 86400 * r\<rparr>])
          @ fullDaysFrom n (d + 86400 - 86400) r"
    by (rule Suc.IH [OF al n])
  have "fullDaysLoop (moment_unix d) (moment_unix e) r acc
      = fullDaysLoop (moment_unix (d + 86400)) (moment_unix e) r
          (acc @ [\<lparr>startTime = d - 86400, endTime = d, quantityInToken = 86400 * r\<rparr>])"
    using le Suc.prems(1)
    by (subst fullDaysLoop.simps)
       (auto simp: startOf_day_subtract_moment_unix dayBoundaryAfter_of_aligned
          createDailyAmount_def getFlowedTokenQuantityBetween_def)
  also note step
  finally show ?case by simp
qed

lemma length_fullDaysFrom [simp]: "length (fullDaysFrom n d r) = n"
  by (induction n arbitrary: d) simp_all

lemma last_fullDaysFrom:
  "endTime (last (fullDaysFrom (Suc n) d r)) = d + 86400 * int (Suc n)"
proof (induction n arbitrary: d)
  case 0
  show ?case by simp
next
  case (Suc n)
  have "last (fullDaysFrom (Suc (Suc n)) d r) = last (fullDaysFrom (Suc n) (d + 86400) r)"
    by simp
  then show ?case
    by (simp only: Suc.IH) simp
qed

lemma shift_day_div:
  "(e - (d + 86400)) div 86400 + 1 = (e - d) div (86400 :: int)"
proof -
  have "(e - d) div 86400 = ((e - (d + 86400)) + 86400) div 86400"
    by simp
  also have "\<dots> = (e - (d + 86400)) div 86400 + 1"
    by (rule div_add_self2) simp
  finally show ?thesis by simp
qed

lemma cursor_fullDaysFrom:
  "(if length (fullDaysFrom n d r) > 0 then moment_unix (endTime (last (fullDaysFrom n d r)))
    else moment_unix d) = moment_unix (d + 86400 * int n)"
proof (cases n)
  case 0
  then show ?thesis by simp
next
  case (Suc k)
  have "0 < length (fullDaysFrom (Suc k) d r)"
    by simp
  then have "(if length (fullDaysFrom (Suc k) d r) > 0
              then moment_unix (endTime (last (fullDaysFrom (Suc k) d r)))
              else moment_unix d) = moment_unix (endTime (last (fullDaysFrom (Suc k) d r)))"
    by (simp only: if_True)
  also have "\<dots> = moment_unix (d + 86400 * int (Suc k))"
    by (simp only: last_fullDaysFrom)
  finally show ?thesis
    unfolding Suc .
qed

lemma calculateDailyAmountsForFullDaysBetween_closed:
  assumes "d mod 86400 = 0"
  shows "calculateDailyAmountsForFullDaysBetween (moment_unix d) (moment_unix e) r =
           (fullDaysFrom (nat ((e - d) div 86400)) d r,
            moment_unix (d + 86400 * int (nat ((e - d) div 86400))))"
proof -
  let ?n = "nat ((e - d) div 86400)"
  have al: "(d + 86400) mod 86400 = 0" using assms by simp
  have "fullDaysLoop (moment_unix (d + 86400)) (moment_unix e) r [] =
          [] @ fullDaysFrom ?n (d + 86400 - 86400) r"
    by (rule fullDaysLoop_closed [OF al]) (simp add: shift_day_div)
  then have loop: "fullDaysLoop (moment_unix (d + 86400)) (moment_unix e) r [] = fullDaysFrom ?n d r"
    by simp
  have nxt: "startOf_day (add_days (moment_unix d) 1) = moment_unix (d + 86400)"
    by (simp add: dayBoundaryAfter_of_aligned [OF assms])
  show ?thesis
    unfolding calculateDailyAmountsForFullDaysBetween_def Let_def nxt loop
    by (simp only: cursor_fullDaysFrom)
qed

lemma calculateDailyAmounts_closed:
  "calculateDailyAmounts (moment_unix s) (moment_unix e) r = decompose_closed s e r"
proof (cases "e \<le> dayBoundaryAfter s")
  case True
  then show ?thesis
    by (simp add: calculateDailyAmounts_def decompose_closed_def calculateFirstDailyAmount_def
        createDailyAmount_def getFlowedTokenQuantityBetween_def Let_def)
next
  case False
  have first: "calculateFirstDailyAmount (moment_unix s) (moment_unix e) True r =
      \<lparr>startTime = s, endTime = dayBoundaryAfter s, quantityInToken = (dayBoundaryAfter s - s) * r\<rparr>"
    by (simp add: calculateFirstDailyAmount_def createDailyAmount_def
        getFlowedTokenQuantityBetween_def Let_def)
  have last: "calculateLastDailyAmount (moment_unix c) (moment_unix e) r =
      \<lparr>startTime = c, endTime = e, quantityInToken = (e - c) * r\<rparr>" for c
    by (simp add: calculateLastDailyAmount_def createDailyAmount_def
        getFlowedTokenQuantityBetween_def)
  from False show ?thesis
    by (simp add: calculateDailyAmounts_def decompose_closed_def first last Let_def
        calculateDailyAmountsForFullDaysBetween_closed)
qed

lemma sum_fullDaysFrom:
  "sum_list (map quantityInToken (fullDaysFrom n d r)) = 86400 * int n * r"
  by (induction n arbitrary: d) (simp_all add: algebra_simps)

lemma sum_decompose_closed: "sum_list (map quantityInToken (decompose_closed s e r)) = (e - s) * r"
proof (cases "e \<le> dayBoundaryAfter s")
  case True
  then show ?thesis by (simp add: decompose_closed_def Let_def)
next
  case False
  let ?b = "dayBoundaryAfter s"
  let ?n = "nat ((e - ?b) div 86400)"
  let ?c = "?b + 86400 * int ?n"
  let ?tail = "(if ?c = e then [] else [\<lparr>startTime = ?c, endTime = e, quantityInToken = (e - ?c) * r\<rparr>])"
  have tail: "sum_list (map quantityInToken ?tail) = (e - ?c) * r"
    by simp
  have "decompose_closed s e r =
      \<lparr>startTime = s, endTime = ?b, quantityInToken = (?b - s) * r\<rparr> # fullDaysFrom ?n ?b r @ ?tail"
    using False by (simp add: decompose_closed_def Let_def)
  then have "sum_list (map quantityInToken (decompose_closed s e r)) =
      (?b - s) * r + (86400 * int ?n * r + (e - ?c) * r)"
    by (simp only: list.map map_append sum_list.Cons sum_list_append sum_fullDaysFrom tail
        dailyAmount.simps)
  also have "\<dots> = (e - s) * r"
    by (simp add: algebra_simps)
  finally show ?thesis .
qed

lemma chain_append: "chain a xs b \<Longrightarrow> chain b ys c \<Longrightarrow> chain a (xs @ ys) c"
  by (induction xs arbitrary: a) simp_all

lemma chain_le: "chain a xs b \<Longrightarrow> a \<le> b"
proof (induction xs arbitrary: a)
  case Nil
  then show ?case by simp
next
  case (Cons x xs)
  then have "endTime x \<le> b" and "a < endTime x" by simp_all
  then show ?case by simp
qed

lemma chain_bounds:
  "chain a xs b \<Longrightarrow> x \<in> set xs \<Longrightarrow> a \<le> startTime x \<and> startTime x < endTime x \<and> endTime x \<le> b"
proof (induction xs arbitrary: a)
  case Nil
  then show ?case by simp
next
  case (Cons y ys)
  show ?case
  proof (cases "x = y")
    case True
    with Cons.prems(1) chain_le [of "endTime y" ys b] show ?thesis by simp
  next
    case False
    with Cons.prems have "x \<in> set ys" and "chain (endTime y) ys b" and "a < endTime y"
      by simp_all
    with Cons.IH [of "endTime y"] show ?thesis by simp
  qed
qed

lemma chain_contiguous:
  "chain a xs b \<Longrightarrow> Suc i < length xs \<Longrightarrow> endTime (xs ! i) = startTime (xs ! Suc i)"
proof (induction xs arbitrary: a i)
  case Nil
  then show ?case by simp
next
  case (Cons x xs)
  show ?case
  proof (cases i)
    case 0
    with Cons.prems show ?thesis by (cases xs) simp_all
  next
    case (Suc j)
    with Cons.prems Cons.IH [of "endTime x" j] show ?thesis by simp
  qed
qed

lemma chain_sorted_start: "chain a xs b \<Longrightarrow> sorted_wrt (<) (map startTime xs)"
proof (induction xs arbitrary: a)
  case Nil
  then show ?case by simp
next
  case (Cons x xs)
  then have tl: "chain (endTime x) xs b" and lt: "a < endTime x" and st: "startTime x = a"
    by simp_all
  have "\<forall>y\<in>set xs. startTime x < startTime y"
    using chain_bounds [OF tl] lt st by fastforce
  with Cons.IH [OF tl] show ?case by simp
qed

lemma chain_sorted_end: "chain a xs b \<Longrightarrow> sorted_wrt (<) (map endTime xs)"
proof (induction xs arbitrary: a)
  case Nil
  then show ?case by simp
next
  case (Cons x xs)
  then have tl: "chain (endTime x) xs b"
    by simp
  have "\<forall>y\<in>set xs. endTime x < endTime y"
    using chain_bounds [OF tl] by fastforce
  with Cons.IH [OF tl] show ?case by simp
qed

lemma chain_hd: "chain a xs b \<Longrightarrow> xs \<noteq> [] \<Longrightarrow> startTime (hd xs) = a"
  by (cases xs) simp_all

lemma chain_last: "chain a xs b \<Longrightarrow> xs \<noteq> [] \<Longrightarrow> endTime (last xs) = b"
proof (induction xs arbitrary: a)
  case Nil
  then show ?case by simp
next
  case (Cons x xs)
  then show ?case by (cases xs) simp_all
qed

lemma chain_fullDaysFrom: "chain d (fullDaysFrom n d r) (d + 86400 * int n)"
proof (induction n arbitrary: d)
  case 0
  show ?case by simp
next
  case (Suc n)
  have "d + 86400 + 86400 * int n = d + 86400 * int (Suc n)"
    by simp
  with Suc.IH [of "d + 86400"] show ?case
    by simp
qed

lemma full_days_below:
  "b \<le> e \<Longrightarrow> b + 86400 * int (nat ((e - b) div 86400)) \<le> e"
proof -
  assume "b \<le> e"
  then have "0 \<le> (e - b) div 86400"
    by (simp add: pos_imp_zdiv_nonneg_iff)
  moreover have "86400 * ((e - b) div 86400) + (e - b) mod 86400 = e - b"
    by simp
  moreover have "0 \<le> (e - b) mod 86400"
    by simp
  ultimately show ?thesis by simp
qed

lemma chain_decompose_closed:
  assumes "dayBoundaryAfter s < e"
  shows "chain s (decompose_closed s e r) e"
proof -
  let ?b = "dayBoundaryAfter s"
  let ?n = "nat ((e - ?b) div 86400)"
  let ?c = "?b + 86400 * int ?n"
  let ?tail = "(if ?c = e then [] else [\<lparr>startTime = ?c, endTime = e, quantityInToken = (e - ?c) * r\<rparr>])"
  have "?c \<le> e" using assms full_days_below [of ?b e] by simp
  then have "chain ?c ?tail e" by simp
  with chain_fullDaysFrom [of ?b ?n r] have "chain ?b (fullDaysFrom ?n ?b r @ ?tail) e"
    by (rule chain_append)
  with dayBoundaryAfter_gt [of s] assms show ?thesis
    by (simp add: decompose_closed_def Let_def)
qed

lemma fullDaysLoop_fuel_enough:
  "d mod 86400 = 0 \<Longrightarrow> nat ((e - d) div 86400 + 1) \<le> k \<Longrightarrow>
   fullDaysLoop_fuel k (moment_unix d) (moment_unix e) r acc =
     Some (fullDaysLoop (moment_unix d) (moment_unix e) r acc)"
proof (induction k arbitrary: d acc)
  case 0
  then have "(e - d) div 86400 < 0" by linarith
  then have "e < d" by (simp add: pos_imp_zdiv_neg_iff)
  then show ?case
    by (subst fullDaysLoop.simps) simp
next
  case (Suc k)
  show ?case
  proof (cases "e < d")
    case True
    then show ?thesis
      by (subst fullDaysLoop.simps) simp
  next
    case False
    then have le: "d \<le> e" by simp
    then have "0 \<le> (e - d) div 86400"
      by (simp add: pos_imp_zdiv_nonneg_iff)
    with Suc.prems(2) have k: "nat ((e - (d + 86400)) div 86400 + 1) \<le> k"
      by (simp add: shift_day_div)
    have al: "(d + 86400) mod 86400 = 0" using Suc.prems(1) by simp
    have nxt: "dayBoundaryAfter d = d + 86400"
      by (rule dayBoundaryAfter_of_aligned [OF Suc.prems(1)])
    show ?thesis
      using le
      by (subst fullDaysLoop.simps) (auto simp: nxt Suc.IH [OF al k])
  qed
qed

lemma calculateDailyAmountsForFullDaysBetween_fuel_enough:
  assumes "d mod 86400 = 0" and "nat ((e - d) div 86400) \<le> k"
  shows "calculateDailyAmountsForFullDaysBetween_fuel k (moment_unix d) (moment_unix e) r =
           Some (calculateDailyAmountsForFullDaysBetween (moment_unix d) (moment_unix e) r)"
proof -
  have al: "(d + 86400) mod 86400 = 0" using assms(1) by simp
  have nxt: "startOf_day (add_days (moment_unix d) 1) = moment_unix (d + 86400)"
    by (simp add: dayBoundaryAfter_of_aligned [OF assms(1)])
  have k: "nat ((e - (d + 86400)) div 86400 + 1) \<le> k"
    using assms(2) by (simp add: shift_day_div)
  show ?thesis
    unfolding calculateDailyAmountsForFullDaysBetween_fuel_def
      calculateDailyAmountsForFullDaysBetween_def nxt Let_def
    by (simp add: fullDaysLoop_fuel_enough [OF al k])
qed

lemma days_after_boundary_le:
  "nat ((e - dayBoundaryAfter s) div 86400) \<le> nat ((e - s) div 86400)"
proof -
  have "e - dayBoundaryAfter s \<le> e - s"
    using dayBoundaryAfter_gt [of s] by simp
  then have "(e - dayBoundaryAfter s) div 86400 \<le> (e - s) div 86400"
    by (rule zdiv_mono1) simp
  then show ?thesis by simp
qed

lemma calculateDailyAmounts_fuel_enough:
  assumes "nat ((e - dayBoundaryAfter s) div 86400) \<le> k"
  shows "calculateDailyAmounts_fuel k (moment_unix s) (moment_unix e) r =
           Some (calculateDailyAmounts (moment_unix s) (moment_unix e) r)"
proof (cases "e \<le> dayBoundaryAfter s")
  case True
  then show ?thesis
    by (simp add: calculateDailyAmounts_fuel_def calculateDailyAmounts_def Let_def)
next
  case False
  have first: "endTime (calculateFirstDailyAmount (moment_unix s) (moment_unix e) True r) =
      dayBoundaryAfter s"
    by (simp add: calculateFirstDailyAmount_def createDailyAmount_def Let_def)
  have full: "calculateDailyAmountsForFullDaysBetween_fuel k
        (moment_unix (dayBoundaryAfter s)) (moment_unix e) r =
      Some (calculateDailyAmountsForFullDaysBetween (moment_unix (dayBoundaryAfter s)) (moment_unix e) r)"
    by (rule calculateDailyAmountsForFullDaysBetween_fuel_enough) (simp_all add: assms)
  from False show ?thesis
    by (simp add: calculateDailyAmounts_fuel_def calculateDailyAmounts_def Let_def first full
        split: prod.splits)
qed

lemma fullDaysFrom_any_start:
  "fst (calculateDailyAmountsForFullDaysBetween (moment_unix t) (moment_unix e) r) =
     fullDaysFrom (nat ((e - dayBoundaryAfter t) div 86400 + 1)) (dayBoundaryAfter t - 86400) r"
proof -
  have "fullDaysLoop (moment_unix (dayBoundaryAfter t)) (moment_unix e) r [] =
      [] @ fullDaysFrom (nat ((e - dayBoundaryAfter t) div 86400 + 1)) (dayBoundaryAfter t - 86400) r"
    by (rule fullDaysLoop_closed) simp_all
  then show ?thesis
    by (simp add: calculateDailyAmountsForFullDaysBetween_def Let_def)
qed

lemma single_amount:
  "e \<le> dayBoundaryAfter s \<Longrightarrow>
   calculateDailyAmounts (moment_unix s) (moment_unix e) r =
     [\<lparr>startTime = s, endTime = e, quantityInToken = (e - s) * r\<rparr>]"
  by (simp add: calculateDailyAmounts_closed decompose_closed_def Let_def)

lemma spanning_amounts:
  "dayBoundaryAfter s < e \<Longrightarrow>
   calculateDailyAmounts (moment_unix s) (moment_unix e) r =
     \<lparr>startTime = s, endTime = dayBoundaryAfter s, quantityInToken = (dayBoundaryAfter s - s) * r\<rparr> #
     fullDaysFrom (nat ((e - dayBoundaryAfter s) div 86400)) (dayBoundaryAfter s) r @
     (if dayBoundaryAfter s + 86400 * int (nat ((e - dayBoundaryAfter s) div 86400)) = e then []
      else [\<lparr>startTime = dayBoundaryAfter s + 86400 * int (nat ((e - dayBoundaryAfter s) div 86400)),
             endTime = e,
             quantityInToken =
               (e - (dayBoundaryAfter s + 86400 * int (nat ((e - dayBoundaryAfter s) div 86400)))) * r\<rparr>])"
  by (simp add: calculateDailyAmounts_closed decompose_closed_def Let_def)

lemma fullDaysFrom_member:
  "x \<in> set (fullDaysFrom n d r) \<Longrightarrow> d mod 86400 = 0 \<Longrightarrow>
   startTime x mod 86400 = 0 \<and> endTime x = startTime x + 86400 \<and> quantityInToken x = 86400 * r"
proof (induction n arbitrary: d)
  case 0
  then show ?case by simp
next
  case (Suc n)
  show ?case
  proof (cases "x = \<lparr>startTime = d, endTime = d + 86400, quantityInToken = 86400 * r\<rparr>")
    case True
    with Suc.prems(2) show ?thesis by simp
  next
    case False
    with Suc.prems(1) have "x \<in> set (fullDaysFrom n (d + 86400) r)" by simp
    moreover have "(d + 86400) mod 86400 = 0" using Suc.prems(2) by simp
    ultimately show ?thesis by (rule Suc.IH)
  qed
qed

lemma fullDaysFrom_last:
  "last (fullDaysFrom (Suc n) d r) =
     \<lparr>startTime = d + 86400 * int n, endTime = d + 86400 * int n + 86400, quantityInToken = 86400 * r\<rparr>"
proof (induction n arbitrary: d)
  case 0
  show ?case by simp
next
  case (Suc n)
  have "last (fullDaysFrom (Suc (Suc n)) d r) = last (fullDaysFrom (Suc n) (d + 86400) r)"
    by simp
  then show ?case
    by (simp only: Suc.IH) (simp add: algebra_simps)
qed

lemma fullDaysFrom_shape:
  "map (\<lambda>a. (startTime a, endTime a)) (fullDaysFrom n d r) =
   map (\<lambda>a. (startTime a, endTime a)) (fullDaysFrom n d r')"
  by (induction n arbitrary: d) simp_all

lemma decompose_closed_shape:
  "map (\<lambda>a. (startTime a, endTime a)) (decompose_closed s e r) =
   map (\<lambda>a. (startTime a, endTime a)) (decompose_closed s e r')"
  using fullDaysFrom_shape [of _ _ r r']
  by (simp add: decompose_closed_def Let_def)

lemma fullDaysFrom_zero: "x \<in> set (fullDaysFrom n d 0) \<Longrightarrow> quantityInToken x = 0"
  by (induction n arbitrary: d) auto

lemma decompose_closed_zero: "x \<in> set (decompose_closed s e 0) \<Longrightarrow> quantityInToken x = 0"
  by (auto simp: decompose_closed_def Let_def fullDaysFrom_zero split: if_splits)

lemma next_boundary_increases: "valueOf m < valueOf (startOf_day (add_days m 1))"
proof -
  have "(valueOf m + 86400000) mod 86400000 < 86400000"
    by simp
  then have "valueOf m < (valueOf m + 86400000) - (valueOf m + 86400000) mod 86400000"
    by linarith
  then show ?thesis
    by (simp add: startOf_day_def add_days_def MS_PER_DAY_def)
qed

lemma next_boundary_one_day:
  "valueOf (startOf_day (add_days (startOf_day m) 1)) = valueOf (startOf_day m) + MS_PER_DAY"
proof -
  have "(valueOf m - valueOf m mod 86400000) mod 86400000 = 0"
    by (simp add: minus_mod_eq_mult_div)
  then show ?thesis
    by (simp add: startOf_day_def add_days_def MS_PER_DAY_def)
qed

section \<open>Concrete runs\<close>

text \<open>
  The scenario of two and a half days from 2023-01-01T12:00:00Z to 2023-01-03T06:00:00Z,
  evaluated on the model, with rate 1 and rate 0, and the full-day phase of the interval that
  ends at midnight of 2023-01-03.
\<close>

lemma scenario_A:
  "calculateDailyAmounts (moment_unix 1672574400) (moment_unix 1672725600) 1 =
     [\<lparr>startTime = 1672574400, endTime = 1672617600, quantityInToken = 43200\<rparr>,
      \<lparr>startTime = 1672617600, endTime = 1672704000, quantityInToken = 86400\<rparr>,
      \<lparr>startTime = 1672704000, endTime = 1672725600, quantityInToken = 21600\<rparr>]"
  by code_simp

lemma scenario_full_days:
  "fst (calculateDailyAmountsForFullDaysBetween
     (moment_unix (endTime (calculateFirstDailyAmount
        (moment_unix 1672574400) (moment_unix 1672704000) True 1)))
     (moment_unix 1672704000) 1) =
   [\<lparr>startTime = 1672617600, endTime = 1672704000, quantityInToken = 86400\<rparr>]"
  by code_simp

lemma scenario_zero_rate:
  "calculateDailyAmounts (moment_unix 1672574400) (moment_unix 1672725600) 0 =
     [\<lparr>startTime = 1672574400, endTime = 1672617600, quantityInToken = 0\<rparr>,
      \<lparr>startTime = 1672617600, endTime = 1672704000, quantityInToken = 0\<rparr>,
      \<lparr>startTime = 1672704000, endTime = 1672725600, quantityInToken = 0\<rparr>]"
  by code_simp

section \<open>The claims\<close>

text \<open>
  C1, as stated, fails: a stream that is still active and starts after the end of the window
  has an empty effective interval, and \<open>getDailyAmounts\<close> returns one amount, not an
  empty sequence.
\<close>

theorem empty_interval_counterexample:
  "dailyAmountEndTimestamp
     \<lparr>startedAtTimestamp = 1672725600, stoppedAtTimestamp = None, flowRate = 1\<rparr> 1672574400
   < dailyAmountStartTimestamp
     \<lparr>startedAtTimestamp = 1672725600, stoppedAtTimestamp = None, flowRate = 1\<rparr> 0 \<and>
   getDailyAmounts
     \<lparr>startedAtTimestamp = 1672725600, stoppedAtTimestamp = None, flowRate = 1\<rparr> 0 1672574400
   \<noteq> []"
  by code_simp

text \<open>
  C1 (amended): for every stream period whose effective interval is empty (the effective
  end is strictly before the effective start), \<open>getDailyAmounts\<close> returns exactly one daily
  amount, from the effective start to the effective end, whose quantity is the (negative)
  duration times the flow rate.
\<close>

theorem empty_interval_single_amount:
  assumes "dailyAmountEndTimestamp p endTimestamp < dailyAmountStartTimestamp p startTimestamp"
  shows "getDailyAmounts p startTimestamp endTimestamp =
           [\<lparr>startTime = dailyAmountStartTimestamp p startTimestamp,
             endTime = dailyAmountEndTimestamp p endTimestamp,
             quantityInToken =
               (dailyAmountEndTimestamp p endTimestamp - dailyAmountStartTimestamp p startTimestamp)
                 * flowRate p\<rparr>]"
proof -
  from assms have "dailyAmountEndTimestamp p endTimestamp
      \<le> dayBoundaryAfter (dailyAmountStartTimestamp p startTimestamp)"
    using dayBoundaryAfter_gt [of "dailyAmountStartTimestamp p startTimestamp"] by simp
  then show ?thesis
    unfolding getDailyAmounts_def by (rule single_amount)
qed

theorem empty_interval_single_amount_witness:
  "dailyAmountEndTimestamp
     \<lparr>startedAtTimestamp = 1672725600, stoppedAtTimestamp = None, flowRate = 1\<rparr> 1672574400
   < dailyAmountStartTimestamp
     \<lparr>startedAtTimestamp = 1672725600, stoppedAtTimestamp = None, flowRate = 1\<rparr> 0 \<and>
   getDailyAmounts
     \<lparr>startedAtTimestamp = 1672725600, stoppedAtTimestamp = None, flowRate = 1\<rparr> 0 1672574400
   = [\<lparr>startTime = 1672725600, endTime = 1672574400, quantityInToken = - 151200\<rparr>]"
proof -
  let ?p = "\<lparr>startedAtTimestamp = 1672725600, stoppedAtTimestamp = None, flowRate = 1\<rparr>"
  have h: "dailyAmountEndTimestamp ?p 1672574400 < dailyAmountStartTimestamp ?p 0"
    by (simp add: dailyAmountEndTimestamp_def dailyAmountStartTimestamp_def
        isStreamTerminated_def truthy_def)
  from empty_interval_single_amount [OF h] h show ?thesis
    by (simp add: dailyAmountEndTimestamp_def dailyAmountStartTimestamp_def
        isStreamTerminated_def truthy_def)
qed

text \<open>
  C2 (conservation): for every start, end and flow rate with \<open>end \<ge> start\<close>, the
  quantities of the amounts returned by \<open>calculateDailyAmounts\<close> on the instants of start
  and end add up to \<open>(end - start) * flowRate\<close>.
\<close>

theorem conservation:
  assumes "s \<le> e"
  shows "sum_list (map quantityInToken (calculateDailyAmounts (moment_unix s) (moment_unix e) r))
           = (e - s) * r"
  by (simp only: calculateDailyAmounts_closed sum_decompose_closed)

theorem conservation_witness:
  "(1672574400 :: int) \<le> 1672725600 \<and>
   sum_list (map quantityInToken
     (calculateDailyAmounts (moment_unix 1672574400) (moment_unix 1672725600) 1)) = 151200"
proof -
  have h: "(1672574400 :: int) \<le> 1672725600" by simp
  from conservation [OF h, of 1] h show ?thesis by simp
qed

text \<open>
  C3 (contiguity and boundary coverage): for \<open>end \<ge> start\<close> the returned sequence is not
  empty, every amount ends where the next one starts, start times and end times increase
  strictly along the sequence, no amount ends before it starts, the first amount starts at
  start and the last one ends at end.
\<close>

theorem contiguity:
  assumes "s \<le> e"
  shows "calculateDailyAmounts (moment_unix s) (moment_unix e) r \<noteq> [] \<and>
         (\<forall>i. Suc i < length (calculateDailyAmounts (moment_unix s) (moment_unix e) r) \<longrightarrow>
            endTime (calculateDailyAmounts (moment_unix s) (moment_unix e) r ! i) =
            startTime (calculateDailyAmounts (moment_unix s) (moment_unix e) r ! Suc i)) \<and>
         sorted_wrt (<) (map startTime (calculateDailyAmounts (moment_unix s) (moment_unix e) r)) \<and>
         sorted_wrt (<) (map endTime (calculateDailyAmounts (moment_unix s) (moment_unix e) r)) \<and>
         (\<forall>a \<in> set (calculateDailyAmounts (moment_unix s) (moment_unix e) r).
            startTime a \<le> endTime a) \<and>
         startTime (hd (calculateDailyAmounts (moment_unix s) (moment_unix e) r)) = s \<and>
         endTime (last (calculateDailyAmounts (moment_unix s) (moment_unix e) r)) = e"
proof (cases "e \<le> dayBoundaryAfter s")
  case True
  with assms show ?thesis
    by (simp add: single_amount)
next
  case False
  let ?xs = "calculateDailyAmounts (moment_unix s) (moment_unix e) r"
  from False have ch: "chain s ?xs e"
    by (simp add: calculateDailyAmounts_closed chain_decompose_closed)
  from False have ne: "?xs \<noteq> []"
    by (simp add: spanning_amounts)
  have "\<forall>i. Suc i < length ?xs \<longrightarrow> endTime (?xs ! i) = startTime (?xs ! Suc i)"
    using chain_contiguous [OF ch] by blast
  moreover have "\<forall>a \<in> set ?xs. startTime a \<le> endTime a"
    using chain_bounds [OF ch] by fastforce
  ultimately show ?thesis
    using ne chain_sorted_start [OF ch] chain_sorted_end [OF ch] chain_hd [OF ch ne]
      chain_last [OF ch ne]
    by blast
qed

theorem contiguity_witness:
  "(1672574400 :: int) \<le> 1672725600 \<and>
   endTime (calculateDailyAmounts (moment_unix 1672574400) (moment_unix 1672725600) 1 ! 0) =
     startTime (calculateDailyAmounts (moment_unix 1672574400) (moment_unix 1672725600) 1 ! Suc 0) \<and>
   endTime (calculateDailyAmounts (moment_unix 1672574400) (moment_unix 1672725600) 1 ! 1) =
     startTime (calculateDailyAmounts (moment_unix 1672574400) (moment_unix 1672725600) 1 ! Suc 1) \<and>
   startTime (hd (calculateDailyAmounts (moment_unix 1672574400) (moment_unix 1672725600) 1))
     = 1672574400 \<and>
   endTime (last (calculateDailyAmounts (moment_unix 1672574400) (moment_unix 1672725600) 1))
     = 1672725600"
proof -
  let ?xs = "calculateDailyAmounts (moment_unix 1672574400) (moment_unix 1672725600) 1"
  have h: "(1672574400 :: int) \<le> 1672725600" by simp
  have len: "length ?xs = 3" by (simp add: scenario_A)
  note c = contiguity [OF h, of 1]
  from c have adj: "\<forall>i. Suc i < length ?xs \<longrightarrow> endTime (?xs ! i) = startTime (?xs ! Suc i)"
    by blast
  have "endTime (?xs ! 0) = startTime (?xs ! Suc 0)" using adj len by simp
  moreover have "endTime (?xs ! 1) = startTime (?xs ! Suc 1)" using adj len by simp
  moreover from c have "startTime (hd ?xs) = 1672574400" by blast
  moreover from c have "endTime (last ?xs) = 1672725600" by blast
  ultimately show ?thesis using h by blast
qed

text \<open>
  C4 (day alignment): for \<open>end \<ge> start\<close>, every amount of the output except the last
  ends at 00:00:00 UTC of some day: its end time is a multiple of 86400 seconds.
\<close>

theorem day_alignment:
  assumes "s \<le> e"
  shows "\<forall>a \<in> set (butlast (calculateDailyAmounts (moment_unix s) (moment_unix e) r)).
           endTime a mod 86400 = 0"
proof (cases "e \<le> dayBoundaryAfter s")
  case True
  then show ?thesis by (simp add: single_amount)
next
  case False
  let ?b = "dayBoundaryAfter s"
  let ?first = "\<lparr>startTime = s, endTime = ?b, quantityInToken = (?b - s) * r\<rparr>"
  let ?full = "fullDaysFrom (nat ((e - ?b) div 86400)) ?b r"
  have aligned: "endTime a mod 86400 = 0" if "a \<in> set (?first # ?full)" for a
  proof (cases "a = ?first")
    case True
    then show ?thesis by simp
  next
    case False
    with that have "a \<in> set ?full" by simp
    then have "startTime a mod 86400 = 0 \<and> endTime a = startTime a + 86400 \<and>
        quantityInToken a = 86400 * r"
      by (rule fullDaysFrom_member) simp
    then show ?thesis by simp
  qed
  have "set (butlast (calculateDailyAmounts (moment_unix s) (moment_unix e) r))
      \<subseteq> set (?first # ?full)"
  proof (cases "?b + 86400 * int (nat ((e - ?b) div 86400)) = e")
    case True
    with False have "calculateDailyAmounts (moment_unix s) (moment_unix e) r = ?first # ?full"
      by (simp add: spanning_amounts)
    moreover have "set (butlast (?first # ?full)) \<subseteq> set (?first # ?full)"
      by (rule subsetI) (rule in_set_butlastD)
    ultimately show ?thesis
      by (simp only:)
  next
    case ne: False
    let ?last = "\<lparr>startTime = ?b + 86400 * int (nat ((e - ?b) div 86400)), endTime = e,
        quantityInToken = (e - (?b + 86400 * int (nat ((e - ?b) div 86400)))) * r\<rparr>"
    from False ne have "calculateDailyAmounts (moment_unix s) (moment_unix e) r =
        (?first # ?full) @ [?last]"
      by (simp add: spanning_amounts)
    then have "butlast (calculateDailyAmounts (moment_unix s) (moment_unix e) r) = ?first # ?full"
      by (simp only: butlast_snoc)
    then show ?thesis by simp
  qed
  with aligned show ?thesis by blast
qed

theorem day_alignment_witness:
  "(1672574400 :: int) \<le> 1672725600 \<and>
   \<lparr>startTime = 1672617600, endTime = 1672704000, quantityInToken = 86400\<rparr>
     \<in> set (butlast (calculateDailyAmounts (moment_unix 1672574400) (moment_unix 1672725600) 1)) \<and>
   endTime \<lparr>startTime = 1672617600, endTime = 1672704000, quantityInToken = 86400\<rparr> mod 86400 = 0"
proof -
  have h: "(1672574400 :: int) \<le> 1672725600" by simp
  have m: "\<lparr>startTime = 1672617600, endTime = 1672704000, quantityInToken = 86400\<rparr>
     \<in> set (butlast (calculateDailyAmounts (moment_unix 1672574400) (moment_unix 1672725600) 1))"
    by (simp add: scenario_A)
  from day_alignment [OF h, of 1] m h show ?thesis by blast
qed

text \<open>
  C5 (full-day phase): when end is strictly after the day boundary that follows start,
  every amount that \<open>calculateDailyAmountsForFullDaysBetween\<close> emits (called, as in
  \<open>calculateDailyAmounts\<close>, from the end of the first amount) starts at midnight UTC, spans
  86400 seconds and carries \<open>86400 * flowRate\<close>; and when end is itself a midnight, the day
  that ends exactly at end is among them (the loop condition is inclusive). The first part
  holds for a call from any start instant \<open>t\<close> as well.
\<close>

theorem full_day_phase:
  assumes "isAfter (moment_unix e) (startOf_day (add_days (moment_unix s) 1))"
  shows "(\<forall>a \<in> set (fst (calculateDailyAmountsForFullDaysBetween
                 (moment_unix (endTime (calculateFirstDailyAmount (moment_unix s) (moment_unix e) True r)))
                 (moment_unix e) r)).
            startTime a mod 86400 = 0 \<and> endTime a = startTime a + 86400 \<and>
            quantityInToken a = 86400 * r) \<and>
         (e mod 86400 = 0 \<longrightarrow>
            \<lparr>startTime = e - 86400, endTime = e, quantityInToken = 86400 * r\<rparr>
              \<in> set (fst (calculateDailyAmountsForFullDaysBetween
                 (moment_unix (endTime (calculateFirstDailyAmount (moment_unix s) (moment_unix e) True r)))
                 (moment_unix e) r))) \<and>
         (\<forall>a \<in> set (fst (calculateDailyAmountsForFullDaysBetween (moment_unix t) (moment_unix e) r)).
            startTime a mod 86400 = 0 \<and> endTime a = startTime a + 86400 \<and>
            quantityInToken a = 86400 * r)"
proof -
  let ?b = "dayBoundaryAfter s"
  let ?n = "nat ((e - ?b) div 86400)"
  have first: "endTime (calculateFirstDailyAmount (moment_unix s) (moment_unix e) True r) = ?b"
    by (simp add: calculateFirstDailyAmount_def createDailyAmount_def Let_def)
  have full: "fst (calculateDailyAmountsForFullDaysBetween (moment_unix ?b) (moment_unix e) r)
      = fullDaysFrom ?n ?b r"
    by (simp add: calculateDailyAmountsForFullDaysBetween_closed)
  from assms have lt: "?b < e" by simp
  have days: "\<forall>a \<in> set (fullDaysFrom ?n ?b r).
      startTime a mod 86400 = 0 \<and> endTime a = startTime a + 86400 \<and> quantityInToken a = 86400 * r"
    using fullDaysFrom_member [of _ ?n ?b r] by simp
  have incl: "\<lparr>startTime = e - 86400, endTime = e, quantityInToken = 86400 * r\<rparr>
      \<in> set (fullDaysFrom ?n ?b r)" if al: "e mod 86400 = 0"
  proof -
    have "(e - ?b) mod 86400 = (e mod 86400 - ?b mod 86400) mod 86400"
      by (rule mod_diff_eq [symmetric])
    then have "(e - ?b) mod 86400 = 0"
      using al by simp
    then have eq: "86400 * ((e - ?b) div 86400) = e - ?b"
      using mult_div_mod_eq [of 86400 "e - ?b"] by simp
    with lt have pos: "0 < (e - ?b) div 86400"
      by linarith
    then obtain k where k: "?n = Suc k"
      by (cases ?n) simp_all
    then have "int k = (e - ?b) div 86400 - 1"
      using pos by linarith
    with eq have "?b + 86400 * int k = e - 86400"
      by (simp add: algebra_simps)
    then have "last (fullDaysFrom (Suc k) ?b r) =
        \<lparr>startTime = e - 86400, endTime = e, quantityInToken = 86400 * r\<rparr>"
      by (simp only: fullDaysFrom_last) simp
    moreover have "last (fullDaysFrom (Suc k) ?b r) \<in> set (fullDaysFrom (Suc k) ?b r)"
      by (rule last_in_set) simp
    ultimately show ?thesis
      by (simp only: k)
  qed
  have "(dayBoundaryAfter t - 86400) mod 86400 = 0"
    by simp
  then have any: "\<forall>a \<in> set (fst (calculateDailyAmountsForFullDaysBetween (moment_unix t) (moment_unix e) r)).
      startTime a mod 86400 = 0 \<and> endTime a = startTime a + 86400 \<and> quantityInToken a = 86400 * r"
    using fullDaysFrom_member [of _ _ "dayBoundaryAfter t - 86400" r]
    by (simp add: fullDaysFrom_any_start)
  show ?thesis
    unfolding first full using days incl any by blast
qed

theorem full_day_phase_witness:
  "isAfter (moment_unix 1672704000) (startOf_day (add_days (moment_unix 1672574400) 1)) \<and>
   (1672704000 :: int) mod 86400 = 0 \<and>
   \<lparr>startTime = 1672617600, endTime = 1672704000, quantityInToken = 86400\<rparr>
     \<in> set (fst (calculateDailyAmountsForFullDaysBetween
          (moment_unix (endTime (calculateFirstDailyAmount
             (moment_unix 1672574400) (moment_unix 1672704000) True 1)))
          (moment_unix 1672704000) 1)) \<and>
   startTime \<lparr>startTime = 1672617600, endTime = 1672704000, quantityInToken = 86400\<rparr> mod 86400 = 0"
proof -
  have h: "isAfter (moment_unix 1672704000) (startOf_day (add_days (moment_unix 1672574400) 1))"
    by code_simp
  have al: "(1672704000 :: int) mod 86400 = 0" by simp
  note t = full_day_phase [OF h, where r = 1 and t = 0]
  from t al have m: "\<lparr>startTime = 1672704000 - 86400, endTime = 1672704000, quantityInToken = 86400 * 1\<rparr>
     \<in> set (fst (calculateDailyAmountsForFullDaysBetween
          (moment_unix (endTime (calculateFirstDailyAmount
             (moment_unix 1672574400) (moment_unix 1672704000) True 1)))
          (moment_unix 1672704000) 1))"
    by blast
  then have m': "\<lparr>startTime = 1672617600, endTime = 1672704000, quantityInToken = 86400\<rparr>
     \<in> set (fst (calculateDailyAmountsForFullDaysBetween
          (moment_unix (endTime (calculateFirstDailyAmount
             (moment_unix 1672574400) (moment_unix 1672704000) True 1)))
          (moment_unix 1672704000) 1))"
    by simp
  with t have "startTime \<lparr>startTime = 1672617600, endTime = 1672704000, quantityInToken = 86400\<rparr>
      mod 86400 = 0"
    by blast
  with h al m' show ?thesis by blast
qed

text \<open>
  C6 (single-day identity): when end is not strictly after the start of the day following
  start, \<open>calculateDailyAmounts\<close> returns exactly the one amount
  \<open>(start, end, (end - start) * flowRate)\<close>; for \<open>end = start\<close> it returns exactly one
  amount of length and quantity 0.
\<close>

theorem single_day_identity:
  assumes "\<not> isAfter (moment_unix e) (startOf_day (add_days (moment_unix s) 1))"
  shows "calculateDailyAmounts (moment_unix s) (moment_unix e) r =
           [\<lparr>startTime = s, endTime = e, quantityInToken = (e - s) * r\<rparr>] \<and>
         calculateDailyAmounts (moment_unix s) (moment_unix s) r =
           [\<lparr>startTime = s, endTime = s, quantityInToken = 0\<rparr>]"
proof -
  from assms have "e \<le> dayBoundaryAfter s" by simp
  then have "calculateDailyAmounts (moment_unix s) (moment_unix e) r =
      [\<lparr>startTime = s, endTime = e, quantityInToken = (e - s) * r\<rparr>]"
    by (rule single_amount)
  moreover have "s \<le> dayBoundaryAfter s"
    using dayBoundaryAfter_gt [of s] by simp
  then have "calculateDailyAmounts (moment_unix s) (moment_unix s) r =
      [\<lparr>startTime = s, endTime = s, quantityInToken = 0\<rparr>]"
    by (simp add: single_amount)
  ultimately show ?thesis by blast
qed

theorem single_day_identity_witness:
  "\<not> isAfter (moment_unix 1672617600) (startOf_day (add_days (moment_unix 1672574400) 1)) \<and>
   calculateDailyAmounts (moment_unix 1672574400) (moment_unix 1672617600) 2 =
     [\<lparr>startTime = 1672574400, endTime = 1672617600, quantityInToken = 86400\<rparr>] \<and>
   calculateDailyAmounts (moment_unix 1672574400) (moment_unix 1672574400) 2 =
     [\<lparr>startTime = 1672574400, endTime = 1672574400, quantityInToken = 0\<rparr>]"
proof -
  have h: "\<not> isAfter (moment_unix 1672617600) (startOf_day (add_days (moment_unix 1672574400) 1))"
    by code_simp
  from single_day_identity [OF h, of 2] h show ?thesis by simp
qed

text \<open>
  C7 (inverted interval): for \<open>end < start\<close>, \<open>calculateDailyAmounts\<close> returns exactly
  one amount from start to end with quantity \<open>(end - start) * flowRate\<close>: the duration is
  negative, and so is the quantity when the flow rate is positive. The source has no
  \<^verbatim>\<open>throw\<close> on this path, so the model has no error value.
\<close>

theorem inverted_interval:
  assumes "e < s"
  shows "calculateDailyAmounts (moment_unix s) (moment_unix e) r =
           [\<lparr>startTime = s, endTime = e, quantityInToken = (e - s) * r\<rparr>] \<and>
         e - s < 0 \<and> (0 < r \<longrightarrow> (e - s) * r < 0)"
proof -
  from assms have "e \<le> dayBoundaryAfter s"
    using dayBoundaryAfter_gt [of s] by simp
  then have "calculateDailyAmounts (moment_unix s) (moment_unix e) r =
      [\<lparr>startTime = s, endTime = e, quantityInToken = (e - s) * r\<rparr>]"
    by (rule single_amount)
  moreover from assms have "0 < r \<longrightarrow> (e - s) * r < 0"
    by (simp add: mult_neg_pos)
  ultimately show ?thesis using assms by simp
qed

theorem inverted_interval_witness:
  "(1672574400 :: int) < 1672725600 \<and> (0 :: int) < 3 \<and>
   calculateDailyAmounts (moment_unix 1672725600) (moment_unix 1672574400) 3 =
     [\<lparr>startTime = 1672725600, endTime = 1672574400, quantityInToken = - 453600\<rparr>]"
proof -
  have h: "(1672574400 :: int) < 1672725600" by simp
  from inverted_interval [OF h, of 3] h show ?thesis by simp
qed

text \<open>
  C8 (the flow rate does not change the shape): for any two flow rates the returned
  sequences have the same length and the same (start time, end time) pairs position by
  position; with flow rate 0 every amount has quantity 0.
\<close>

theorem shape_noninterference:
  "map (\<lambda>a. (startTime a, endTime a)) (calculateDailyAmounts (moment_unix s) (moment_unix e) r1) =
   map (\<lambda>a. (startTime a, endTime a)) (calculateDailyAmounts (moment_unix s) (moment_unix e) r2) \<and>
   length (calculateDailyAmounts (moment_unix s) (moment_unix e) r1) =
   length (calculateDailyAmounts (moment_unix s) (moment_unix e) r2) \<and>
   (\<forall>a \<in> set (calculateDailyAmounts (moment_unix s) (moment_unix e) 0). quantityInToken a = 0)"
proof -
  have shape: "map (\<lambda>a. (startTime a, endTime a)) (calculateDailyAmounts (moment_unix s) (moment_unix e) r1) =
      map (\<lambda>a. (startTime a, endTime a)) (calculateDailyAmounts (moment_unix s) (moment_unix e) r2)"
    by (simp only: calculateDailyAmounts_closed) (rule decompose_closed_shape)
  then have "length (map (\<lambda>a. (startTime a, endTime a))
        (calculateDailyAmounts (moment_unix s) (moment_unix e) r1)) =
      length (map (\<lambda>a. (startTime a, endTime a))
        (calculateDailyAmounts (moment_unix s) (moment_unix e) r2))"
    by (rule arg_cong)
  then have len: "length (calculateDailyAmounts (moment_unix s) (moment_unix e) r1) =
      length (calculateDailyAmounts (moment_unix s) (moment_unix e) r2)"
    by (simp only: length_map)
  have "\<forall>a \<in> set (calculateDailyAmounts (moment_unix s) (moment_unix e) 0). quantityInToken a = 0"
    by (simp only: calculateDailyAmounts_closed) (blast intro: decompose_closed_zero)
  with shape len show ?thesis by blast
qed

theorem shape_noninterference_witness:
  "map (\<lambda>a. (startTime a, endTime a))
     (calculateDailyAmounts (moment_unix 1672574400) (moment_unix 1672725600) 7) =
     [(1672574400, 1672617600), (1672617600, 1672704000), (1672704000, 1672725600)] \<and>
   \<lparr>startTime = 1672617600, endTime = 1672704000, quantityInToken = 0\<rparr>
     \<in> set (calculateDailyAmounts (moment_unix 1672574400) (moment_unix 1672725600) 0) \<and>
   quantityInToken \<lparr>startTime = 1672617600, endTime = 1672704000, quantityInToken = 0\<rparr> = 0"
proof -
  note t = shape_noninterference [of 1672574400 1672725600 7 1]
  from t have "map (\<lambda>a. (startTime a, endTime a))
       (calculateDailyAmounts (moment_unix 1672574400) (moment_unix 1672725600) 7) =
     map (\<lambda>a. (startTime a, endTime a))
       (calculateDailyAmounts (moment_unix 1672574400) (moment_unix 1672725600) 1)"
    by blast
  then have "map (\<lambda>a. (startTime a, endTime a))
       (calculateDailyAmounts (moment_unix 1672574400) (moment_unix 1672725600) 7) =
     [(1672574400, 1672617600), (1672617600, 1672704000), (1672704000, 1672725600)]"
    by (simp add: scenario_A)
  moreover have m: "\<lparr>startTime = 1672617600, endTime = 1672704000, quantityInToken = 0\<rparr>
     \<in> set (calculateDailyAmounts (moment_unix 1672574400) (moment_unix 1672725600) 0)"
    by (simp add: scenario_zero_rate)
  moreover from t m
  have "quantityInToken \<lparr>startTime = 1672617600, endTime = 1672704000, quantityInToken = 0\<rparr> = 0"
    by blast
  ultimately show ?thesis by blast
qed

text \<open>
  C9 (termination): for every start, end and flow rate, also with \<open>end < start\<close>, a budget
  of \<open>(end - start) div 86400\<close> iterations (none when that is negative) is enough for the
  full-days loop: with it, and with any larger one, the budgeted run returns the result of
  \<open>calculateDailyAmounts\<close>. The reason is that each iteration moves the candidate boundary
  forward, by exactly one day from a midnight, while end stays fixed.
\<close>

theorem termination_bound:
  assumes "nat ((e - s) div 86400) \<le> fuel"
  shows "calculateDailyAmounts_fuel fuel (moment_unix s) (moment_unix e) r =
           Some (calculateDailyAmounts (moment_unix s) (moment_unix e) r) \<and>
         valueOf m < valueOf (startOf_day (add_days m 1)) \<and>
         valueOf (startOf_day (add_days (startOf_day m) 1)) = valueOf (startOf_day m) + MS_PER_DAY"
proof -
  have "nat ((e - dayBoundaryAfter s) div 86400) \<le> fuel"
    using days_after_boundary_le [of e s] assms by (rule le_trans)
  then have "calculateDailyAmounts_fuel fuel (moment_unix s) (moment_unix e) r =
      Some (calculateDailyAmounts (moment_unix s) (moment_unix e) r)"
    by (rule calculateDailyAmounts_fuel_enough)
  with next_boundary_increases [of m] next_boundary_one_day [of m] show ?thesis
    by blast
qed

theorem termination_bound_witness:
  "nat (((1672725600 :: int) - 1672574400) div 86400) \<le> 1 \<and>
   calculateDailyAmounts_fuel 1 (moment_unix 1672574400) (moment_unix 1672725600) 1 =
     Some [\<lparr>startTime = 1672574400, endTime = 1672617600, quantityInToken = 43200\<rparr>,
           \<lparr>startTime = 1672617600, endTime = 1672704000, quantityInToken = 86400\<rparr>,
           \<lparr>startTime = 1672704000, endTime = 1672725600, quantityInToken = 21600\<rparr>] \<and>
   nat (((1672574400 :: int) - 1672725600) div 86400) \<le> 0 \<and>
   calculateDailyAmounts_fuel 0 (moment_unix 1672725600) (moment_unix 1672574400) 1 =
     Some (calculateDailyAmounts (moment_unix 1672725600) (moment_unix 1672574400) 1)"
proof -
  have h: "nat (((1672725600 :: int) - 1672574400) div 86400) \<le> 1" by simp
  have h': "nat (((1672574400 :: int) - 1672725600) div 86400) \<le> 0" by simp
  from termination_bound [OF h, of 1] have
    "calculateDailyAmounts_fuel 1 (moment_unix 1672574400) (moment_unix 1672725600) 1 =
       Some (calculateDailyAmounts (moment_unix 1672574400) (moment_unix 1672725600) 1)"
    by blast
  moreover from termination_bound [OF h', of 1] have
    "calculateDailyAmounts_fuel 0 (moment_unix 1672725600) (moment_unix 1672574400) 1 =
       Some (calculateDailyAmounts (moment_unix 1672725600) (moment_unix 1672574400) 1)"
    by blast
  ultimately show ?thesis using h h' by (simp only: scenario_A)
qed

text \<open>
  C10 (a stop timestamp 0 is falsy): a stream period whose \<open>stoppedAtTimestamp\<close> is the
  number 0 is not taken as terminated: the effective end is the end of the window, not
  \<open>min endTimestamp 0\<close>, and the amounts are those of the interval from the effective start
  to the end of the window.
\<close>

theorem zero_stop_is_unterminated:
  assumes "stoppedAtTimestamp p = Some 0"
  shows "\<not> isStreamTerminated p \<and>
         dailyAmountEndTimestamp p endTimestamp = endTimestamp \<and>
         getDailyAmounts p startTimestamp endTimestamp =
           calculateDailyAmounts
             (moment_unix (max (startedAtTimestamp p) startTimestamp))
             (moment_unix endTimestamp) (flowRate p)"
  using assms
  by (simp add: isStreamTerminated_def truthy_def dailyAmountEndTimestamp_def
      dailyAmountStartTimestamp_def getDailyAmounts_def)

theorem zero_stop_is_unterminated_witness:
  "stoppedAtTimestamp \<lparr>startedAtTimestamp = 10, stoppedAtTimestamp = Some 0, flowRate = 1\<rparr> = Some 0 \<and>
   dailyAmountEndTimestamp \<lparr>startedAtTimestamp = 10, stoppedAtTimestamp = Some 0, flowRate = 1\<rparr> 20 = 20 \<and>
   min (20 :: int) 0 \<noteq> 20 \<and>
   getDailyAmounts \<lparr>startedAtTimestamp = 10, stoppedAtTimestamp = Some 0, flowRate = 1\<rparr> 0 20 =
     [\<lparr>startTime = 10, endTime = 20, quantityInToken = 10\<rparr>]"
proof -
  let ?p = "\<lparr>startedAtTimestamp = 10, stoppedAtTimestamp = Some 0, flowRate = 1\<rparr>"
  have h: "stoppedAtTimestamp ?p = Some 0" by simp
  have c: "calculateDailyAmounts (moment_unix 10) (moment_unix 20) 1 =
      [\<lparr>startTime = 10, endTime = 20, quantityInToken = 10\<rparr>]"
    by code_simp
  from zero_stop_is_unterminated [OF h, of 20 0] c show ?thesis by simp
qed

end
